theory Spec2Isabelle
  imports Main
begin

section \<open>JavaScript strings and the built-ins the routes use\<close>

text \<open>
  A JavaScript string is a sequence of UTF-16 code units; \<open>length\<close> counts code units, as
  \<^verbatim>\<open>text.length\<close> does. String literals of the source are written with \<open>js\<close>.
\<close>

type_synonym jsstring = "nat list"

definition js :: "string \<Rightarrow> jsstring" where
  "js s = map of_char s"

text \<open>Every exception of the routes is an \<^verbatim>\<open>Error\<close> object; only its message is read.\<close>

datatype js_error = Error (message: jsstring)

text \<open>
  \<^verbatim>\<open>String.prototype.trim\<close> strips the code units of the ECMAScript productions WhiteSpace and
  LineTerminator from both ends.
\<close>

definition js_whitespace :: "nat \<Rightarrow> bool" where
  "js_whitespace c =
     (c = 9 \<or> c = 10 \<or> c = 11 \<or> c = 12 \<or> c = 13 \<or> c = 32 \<or> c = 160 \<or> c = 5760
      \<or> (8192 \<le> c \<and> c \<le> 8202) \<or> c = 8232 \<or> c = 8233 \<or> c = 8239 \<or> c = 8287
      \<or> c = 12288 \<or> c = 65279)"

definition trim :: "jsstring \<Rightarrow> jsstring" where
  "trim s = rev (dropWhile js_whitespace (rev (dropWhile js_whitespace s)))"

text \<open>
  \<^verbatim>\<open>toLowerCase\<close> on the letters A to Z. Other code units are left as they are: no code unit
  outside A to Z is mapped to one of the letters of \<^verbatim>\<open>.pdf\<close>, \<^verbatim>\<open>.docx\<close> or \<^verbatim>\<open>.txt\<close>, so
  the suffix tests of the upload route see what the built-in would show them.
\<close>

definition toLowerCase :: "jsstring \<Rightarrow> jsstring" where
  "toLowerCase s = map (\<lambda>c. if 65 \<le> c \<and> c \<le> 90 then c + 32 else c) s"

definition endsWith :: "jsstring \<Rightarrow> jsstring \<Rightarrow> bool" where
  "endsWith s suffix =
     (length suffix \<le> length s \<and> drop (length s - length suffix) s = suffix)"

fun includes_str :: "jsstring \<Rightarrow> jsstring \<Rightarrow> bool" where
  "includes_str [] sub = (sub = [])"
| "includes_str (c # cs) sub = (take (length sub) (c # cs) = sub \<or> includes_str cs sub)"

text \<open>\<^verbatim>\<open>name.split('.').pop()\<close>: what follows the last full stop, the whole name without one.\<close>

definition split_dot_pop :: "jsstring \<Rightarrow> jsstring" where
  "split_dot_pop s = rev (takeWhile (\<lambda>c. c \<noteq> 46) (rev s))"

fun join :: "jsstring \<Rightarrow> jsstring list \<Rightarrow> jsstring" where
  "join sep [] = []"
| "join sep [x] = x"
| "join sep (x # y # ys) = x @ sep @ join sep (y # ys)"

text \<open>\<^verbatim>\<open>a || b\<close> on strings: the empty string is falsy, and so is a missing value.\<close>

definition or_else :: "jsstring option \<Rightarrow> jsstring \<Rightarrow> jsstring" where
  "or_else v d = (case v of None \<Rightarrow> d | Some s \<Rightarrow> if s = [] then d else s)"

definition truthy :: "jsstring option \<Rightarrow> bool" where
  "truthy v = (case v of None \<Rightarrow> False | Some s \<Rightarrow> s \<noteq> [])"

text \<open>The decimal text of a number, as string conversion and JSON text extraction give it.\<close>

fun decimal :: "nat \<Rightarrow> jsstring" where
  "decimal n = (if n < 10 then [48 + n] else decimal (n div 10) @ [48 + n mod 10])"

declare decimal.simps [simp del]

subsection \<open>\<^verbatim>\<open>decodeURIComponent\<close>\<close>

text \<open>
  The built-in follows the abstract operation Decode of ECMAScript with an empty set of
  preserved escapes: a \<^verbatim>\<open>%\<close> must be followed by two hexadecimal digits; an octet with a
  leading 1 bit opens a UTF-8 sequence whose continuation octets must each be escaped as
  well, and which must be the shortest encoding of a code point that is no surrogate and
  lies below 0x110000. Anything else throws a URIError.
\<close>

definition URIError :: js_error where
  "URIError = Error (js ''URI malformed'')"

definition hex_digit :: "nat \<Rightarrow> nat option" where
  "hex_digit c =
     (if 48 \<le> c \<and> c \<le> 57 then Some (c - 48)
      else if 65 \<le> c \<and> c \<le> 70 then Some (c - 55)
      else if 97 \<le> c \<and> c \<le> 102 then Some (c - 87)
      else None)"

definition ParseHexOctet :: "nat \<Rightarrow> nat \<Rightarrow> nat option" where
  "ParseHexOctet h l =
     (case hex_digit h of None \<Rightarrow> None
      | Some a \<Rightarrow> (case hex_digit l of None \<Rightarrow> None | Some b \<Rightarrow> Some (16 * a + b)))"

definition leading_ones :: "nat \<Rightarrow> nat" where
  "leading_ones b =
     (if b < 128 then 0 else if b < 192 then 1 else if b < 224 then 2
      else if b < 240 then 3 else if b < 248 then 4 else 5)"

fun continuation_octets :: "nat \<Rightarrow> jsstring \<Rightarrow> nat list option" where
  "continuation_octets 0 s = Some []"
| "continuation_octets (Suc k) (p # h # l # rest) =
     (if p \<noteq> 37 then None
      else (case ParseHexOctet h l of None \<Rightarrow> None
            | Some b \<Rightarrow> map_option ((#) b) (continuation_octets k rest)))"
| "continuation_octets (Suc k) s = None"

definition utf8_code_point :: "nat \<Rightarrow> nat \<Rightarrow> nat list \<Rightarrow> nat option" where
  "utf8_code_point n b conts =
     (let lead = (if n = 2 then b - 192 else if n = 3 then b - 224 else b - 240);
          v = foldl (\<lambda>a c. a * 64 + (c - 128)) lead conts;
          least = (if n = 2 then 128 else if n = 3 then 2048 else 65536)
      in if list_all (\<lambda>c. 128 \<le> c \<and> c < 192) conts \<and> least \<le> v \<and> v < 1114112
            \<and> \<not> (55296 \<le> v \<and> v < 57344)
         then Some v else None)"

definition UTF16EncodeCodePoint :: "nat \<Rightarrow> jsstring" where
  "UTF16EncodeCodePoint v =
     (if v < 65536 then [v]
      else [55296 + (v - 65536) div 1024, 56320 + (v - 65536) mod 1024])"

fun decodeURIComponent :: "jsstring \<Rightarrow> js_error + jsstring" where
  "decodeURIComponent [] = Inr []"
| "decodeURIComponent (c # cs) =
     (if c \<noteq> 37 then
        (case decodeURIComponent cs of Inl e \<Rightarrow> Inl e | Inr r \<Rightarrow> Inr (c # r))
      else
        (case cs of
           h # l # rest \<Rightarrow>
             (case ParseHexOctet h l of
                None \<Rightarrow> Inl URIError
              | Some b \<Rightarrow>
                  (let n = leading_ones b in
                   if n = 0 then
                     (case decodeURIComponent rest of
                        Inl e \<Rightarrow> Inl e | Inr r \<Rightarrow> Inr (b # r))
                   else if n = 1 \<or> 4 < n then Inl URIError
                   else
                     (case continuation_octets (n - 1) rest of
                        None \<Rightarrow> Inl URIError
                      | Some conts \<Rightarrow>
                          (case utf8_code_point n b conts of
                             None \<Rightarrow> Inl URIError
                           | Some v \<Rightarrow>
                               (case decodeURIComponent (drop (3 * (n - 1)) rest) of
                                  Inl e \<Rightarrow> Inl e
                                | Inr r \<Rightarrow> Inr (UTF16EncodeCodePoint v @ r))))))
         | _ \<Rightarrow> Inl URIError))"

text \<open>\<^verbatim>\<open>str.replace(/%/g, '%25')\<close>\<close>

definition replace_percent :: "jsstring \<Rightarrow> jsstring" where
  "replace_percent s = concat (map (\<lambda>c. if c = 37 then [37, 50, 53] else [c]) s)"

text \<open>
  \<^verbatim>\<open>safeDecodeURIComponent\<close> of the upload route. Its first argument stands for the global
  \<^verbatim>\<open>decodeURIComponent\<close> it calls; the result type keeps room for an exception that would
  leave the function.
\<close>

definition safeDecodeURIComponent ::
  "(jsstring \<Rightarrow> js_error + jsstring) \<Rightarrow> jsstring \<Rightarrow> js_error + jsstring" where
  "safeDecodeURIComponent dec str =
     (case dec str of
        Inr r \<Rightarrow> Inr r
      | Inl _ \<Rightarrow>
          (case dec (replace_percent str) of
             Inr r \<Rightarrow> Inr r
           | Inl _ \<Rightarrow> Inr str))"


section \<open>The rows of the table \<^verbatim>\<open>documents\<close> and the services behind the routes\<close>

text \<open>
  The \<^verbatim>\<open>metadata\<close> column is a JSON object; a key may be missing, which the routes allow for
  with \<^verbatim>\<open>?.\<close> and \<^verbatim>\<open>||\<close>.
\<close>

record metadata =
  source :: "jsstring option"
  document_id :: "jsstring option"
  file_name :: "jsstring option"
  file_type :: "jsstring option"
  file_size :: "nat option"
  upload_date :: "jsstring option"
  chunk_index :: "nat option"
  total_chunks :: "nat option"
  file_path :: "jsstring option"
  file_url :: "jsstring option"

record row =
  content :: jsstring
  metadata :: metadata
  embedding :: jsstring

text \<open>The uploaded \<^verbatim>\<open>File\<close>: its name, its declared MIME type, its size and its bytes.\<close>

record js_file =
  f_name :: jsstring
  f_type :: jsstring
  f_size :: nat
  f_bytes :: "nat list"

text \<open>What \<^verbatim>\<open>pdf2json\<close> hands to the \<^verbatim>\<open>pdfParser_dataReady\<close> callback.\<close>

datatype pdf_run = Run (T: "jsstring option")
datatype pdf_text = Text (R: "pdf_run list option")
datatype pdf_page = Page (Texts: "pdf_text list option")
datatype pdf_data = PdfData (Pages: "pdf_page list option")

text \<open>One result of the database function \<^verbatim>\<open>match_documents\<close>.\<close>

record hit =
  hit_content :: jsstring
  hit_metadata :: metadata

text \<open>The calls a route makes to what lies outside it, in the order it makes them.\<close>

datatype event =
    File_arrayBuffer
  | Pdf_parseBuffer
  | Mammoth_extractRawText
  | Buffer_toString
  | Storage_upload jsstring
  | Storage_getPublicUrl jsstring
  | Storage_remove jsstring
  | Splitter_splitText jsstring
  | Embeddings_create jsstring
  | Db_insert nat
  | Db_select jsstring
  | Db_delete jsstring
  | Rpc_match_documents
  | Chat_completions_create jsstring

text \<open>
  The services are parameters of the model: the libraries \<^verbatim>\<open>pdf2json\<close> and \<^verbatim>\<open>mammoth\<close>,
  the UTF-8 decoder of \<^verbatim>\<open>Buffer\<close>, the text splitter, the embedding and completion
  models, and the outcomes of the storage and database requests. A request to the
  database or the storage answers with an error message or with none; a call to a model
  returns or throws. The type \<open>'v\<close> is that of an embedding vector.
\<close>

record 'v services =
  randomUUID :: jsstring
  toISOString :: jsstring
  pdf_parseBuffer :: "nat list \<Rightarrow> jsstring + pdf_data"
  mammoth_extractRawText :: "nat list \<Rightarrow> js_error + jsstring"
  buffer_toString :: "nat list \<Rightarrow> jsstring"
  splitText :: "jsstring \<Rightarrow> jsstring list"
  embeddings_create :: "jsstring \<Rightarrow> js_error + 'v"
  JSON_stringify :: "'v \<Rightarrow> jsstring"
  chat_completions_create :: "jsstring \<Rightarrow> js_error + jsstring"
  match_documents :: "jsstring \<Rightarrow> nat \<Rightarrow> row list \<Rightarrow> jsstring + hit list option"
  storage_upload_error :: "jsstring \<Rightarrow> nat list \<Rightarrow> jsstring option"
  storage_getPublicUrl :: "jsstring \<Rightarrow> jsstring"
  storage_remove_error :: "jsstring \<Rightarrow> jsstring option"
  db_insert_error :: "row \<Rightarrow> jsstring option"
  db_select_error :: "jsstring \<Rightarrow> jsstring option"
  db_delete_error :: "jsstring \<Rightarrow> jsstring option"

text \<open>
  The state the routes share: the table, the storage bucket \<^verbatim>\<open>documents\<close> (path and bytes
  of each object), and the calls made so far.
\<close>

record world =
  db_table :: "row list"
  bucket :: "(jsstring \<times> nat list) list"
  calls :: "event list"

definition log :: "event list \<Rightarrow> world \<Rightarrow> world" where
  "log es w = w\<lparr>calls := calls w @ es\<rparr>"

section \<open>The upload route\<close>

subsection \<open>\<^verbatim>\<open>extractTextFromFile\<close>\<close>

definition UnsupportedFormat :: js_error where
  "UnsupportedFormat =
     Error (js ''Unsupported file type. Please upload a PDF, DOCX, or TXT file.'')"

text \<open>
  The three nested \<^verbatim>\<open>forEach\<close> of the PDF branch: every run with a non-empty \<^verbatim>\<open>T\<close> adds its
  decoded text and one space to \<^verbatim>\<open>fullText\<close>. An exception of the decoder would leave them.
\<close>

fun add_runs :: "jsstring \<Rightarrow> pdf_run list \<Rightarrow> js_error + jsstring" where
  "add_runs fullText [] = Inr fullText"
| "add_runs fullText (r # rs) =
     (if truthy (T r) then
        (case safeDecodeURIComponent decodeURIComponent (the (T r)) of
           Inl e \<Rightarrow> Inl e
         | Inr d \<Rightarrow> add_runs (fullText @ d @ [32]) rs)
      else add_runs fullText rs)"

fun add_texts :: "jsstring \<Rightarrow> pdf_text list \<Rightarrow> js_error + jsstring" where
  "add_texts fullText [] = Inr fullText"
| "add_texts fullText (t # ts) =
     (case R t of
        None \<Rightarrow> add_texts fullText ts
      | Some rs \<Rightarrow>
          (case add_runs fullText rs of
             Inl e \<Rightarrow> Inl e
           | Inr fullText' \<Rightarrow> add_texts fullText' ts))"

fun add_pages :: "jsstring \<Rightarrow> pdf_page list \<Rightarrow> js_error + jsstring" where
  "add_pages fullText [] = Inr fullText"
| "add_pages fullText (p # ps) =
     (case Texts p of
        None \<Rightarrow> add_pages fullText ps
      | Some ts \<Rightarrow>
          (case add_texts fullText ts of
             Inl e \<Rightarrow> Inl e
           | Inr fullText' \<Rightarrow> add_pages fullText' ps))"

definition pdf_dataReady :: "pdf_data \<Rightarrow> js_error + jsstring" where
  "pdf_dataReady pdfData =
     (case (case Pages pdfData of None \<Rightarrow> Inr [] | Some ps \<Rightarrow> add_pages [] ps) of
        Inl e \<Rightarrow> Inl (Error (js ''Error extracting text: '' @ message e))
      | Inr fullText \<Rightarrow> Inr (trim fullText))"

text \<open>
  The function returns the calls it made together with the text, or with the exception
  it throws. Its first statement reads the bytes of the file into a buffer.
\<close>

definition extractTextFromFile ::
  "'v services \<Rightarrow> js_file \<Rightarrow> event list \<times> (js_error + jsstring)" where
  "extractTextFromFile sv file =
     (let buffer = f_bytes file;
          fileName = toLowerCase (f_name file)
      in if endsWith fileName (js ''.pdf'') then
           ([File_arrayBuffer, Pdf_parseBuffer],
            (case pdf_parseBuffer sv buffer of
               Inl parserError \<Rightarrow> Inl (Error (js ''Error parsing PDF: '' @ parserError))
             | Inr pdfData \<Rightarrow> pdf_dataReady pdfData))
         else if endsWith fileName (js ''.docx'') then
           ([File_arrayBuffer, Mammoth_extractRawText],
            (case mammoth_extractRawText sv buffer of
               Inl e \<Rightarrow> Inl (Error (js ''Error extracting DOCX text: '' @ message e))
             | Inr v \<Rightarrow> Inr v))
         else if endsWith fileName (js ''.txt'') then
           ([File_arrayBuffer, Buffer_toString], Inr (buffer_toString sv buffer))
         else ([File_arrayBuffer], Inl UnsupportedFormat))"

subsection \<open>\<^verbatim>\<open>POST\<close>\<close>

datatype upload_response =
    Upload_failed (status: nat) (error: jsstring)
  | Upload_ok (documentId: jsstring) (fileName: jsstring) (chunks: nat) (textLength: nat)
      (fileUrl: jsstring)

definition EmptyContent :: upload_response where
  "EmptyContent = Upload_failed 400 (js ''Could not extract text from file'')"

text \<open>The outer \<^verbatim>\<open>catch\<close> of the handler.\<close>

definition caught :: "js_error \<Rightarrow> upload_response" where
  "caught e =
     Upload_failed 500 (if message e = [] then js ''Failed to process file'' else message e)"

definition upload_path :: "'v services \<Rightarrow> js_file \<Rightarrow> jsstring" where
  "upload_path sv file =
     randomUUID sv @ js ''.''
       @ (if split_dot_pop (f_name file) = [] then js ''bin'' else split_dot_pop (f_name file))"

text \<open>The row inserted for chunk \<open>i\<close> of \<open>n\<close>.\<close>

definition chunk_row :: "'v services \<Rightarrow> js_file \<Rightarrow> nat \<Rightarrow> nat \<Rightarrow> jsstring \<Rightarrow> jsstring \<Rightarrow> row" where
  "chunk_row sv file n i chunk emb =
     \<lparr>content = chunk,
      metadata =
        \<lparr>source = Some (f_name file),
         document_id = Some (randomUUID sv),
         file_name = Some (f_name file),
         file_type = Some (if f_type file = [] then split_dot_pop (f_name file) else f_type file),
         file_size = Some (f_size file),
         upload_date = Some (toISOString sv),
         chunk_index = Some i,
         total_chunks = Some n,
         file_path = Some (upload_path sv file),
         file_url = Some (storage_getPublicUrl sv (upload_path sv file))\<rparr>,
      embedding = emb\<rparr>"

text \<open>
  The loop over the chunks, from index \<open>i\<close> on, \<open>rest\<close> being the chunks not yet processed.
  It ends the handler with a response when an insert fails, throws when the embedding
  call throws, and falls through otherwise.
\<close>

fun embed_and_insert ::
  "'v services \<Rightarrow> js_file \<Rightarrow> nat \<Rightarrow> nat \<Rightarrow> jsstring list \<Rightarrow> world
     \<Rightarrow> (js_error + upload_response option) \<times> world" where
  "embed_and_insert sv file n i [] w = (Inr None, w)"
| "embed_and_insert sv file n i (chunk # rest) w =
     (case embeddings_create sv chunk of
        Inl e \<Rightarrow> (Inl e, log [Embeddings_create chunk] w)
      | Inr emb \<Rightarrow>
          (let r = chunk_row sv file n i chunk (JSON_stringify sv emb);
               w' = log [Embeddings_create chunk, Db_insert i] w
           in case db_insert_error sv r of
                Some msg \<Rightarrow> (Inr (Some (Upload_failed 500 msg)), w')
              | None \<Rightarrow>
                  embed_and_insert sv file n (Suc i) rest (w'\<lparr>db_table := db_table w' @ [r]\<rparr>)))"

definition POST_upload :: "'v services \<Rightarrow> js_file option \<Rightarrow> world \<Rightarrow> upload_response \<times> world" where
  "POST_upload sv upload w =
     (case upload of
        None \<Rightarrow> (Upload_failed 400 (js ''No file uploaded''), w)
      | Some file \<Rightarrow>
          (let filePath = upload_path sv file;
               w1 = log [File_arrayBuffer, Storage_upload filePath] w
           in case storage_upload_error sv filePath (f_bytes file) of
                Some m \<Rightarrow>
                  (let msg = (if m = [] then js ''Unknown storage error'' else m)
                   in if includes_str msg (js ''row-level security'') \<or> includes_str msg (js ''RLS'')
                      then (Upload_failed 500
                              (js ''Storage RLS error: '' @ msg
                                 @ js ''. Ensure SUPABASE_SERVICE_ROLE_KEY is set.''), w1)
                      else (Upload_failed 500 (js ''Failed to store file: '' @ msg), w1))
              | None \<Rightarrow>
                  (let w2 = log [Storage_getPublicUrl filePath]
                              (w1\<lparr>bucket := bucket w1 @ [(filePath, f_bytes file)]\<rparr>);
                       w3 = log (fst (extractTextFromFile sv file)) w2
                   in case snd (extractTextFromFile sv file) of
                        Inl e \<Rightarrow> (caught e, w3)
                      | Inr text \<Rightarrow>
                          if text = [] \<or> trim text = [] then (EmptyContent, w3)
                          else
                            (let chunks = splitText sv text;
                                 w4 = log [Splitter_splitText text] w3
                             in case embed_and_insert sv file (length chunks) 0 chunks w4 of
                                  (Inl e, w5) \<Rightarrow> (caught e, w5)
                                | (Inr (Some response), w5) \<Rightarrow> (response, w5)
                                | (Inr None, w5) \<Rightarrow>
                                    (Upload_ok (randomUUID sv) (f_name file) (length chunks)
                                       (length text)
                                       (storage_getPublicUrl sv filePath), w5)))))"


section \<open>The chunker\<close>

text \<open>
  Modelled from the spec: the Chunker of section 4.2. The upload route calls \<^verbatim>\<open>splitText\<close> of
  \<^verbatim>\<open>RecursiveCharacterTextSplitter\<close> from the package \<^verbatim>\<open>@langchain/textsplitters\<close>, whose code is
  not among the sources of the repository; in the routes above it is the parameter
  \<open>splitText\<close>. The spec describes it as producing maximal contiguous slices of the text
  no longer than \<open>chunkSize\<close>, breaking at a natural boundary where there is one and at the
  size limit otherwise, each chunk after the first beginning \<open>overlap\<close> characters before
  the end of the span of the previous one; a text that fits in one chunk gives the one
  chunk equal to the trimmed input, and the empty text gives no chunk.

  Where a slice is cut is left to a policy \<open>brk\<close>, which is given the window of \<open>chunkSize\<close>
  characters that starts the rest of the text and answers with the length of the slice;
  the answer is kept above \<open>overlap\<close>, so that the next chunk starts later than this one,
  and within the window.
\<close>

definition cut_length :: "(jsstring \<Rightarrow> nat) \<Rightarrow> nat \<Rightarrow> jsstring \<Rightarrow> nat" where
  "cut_length brk overlap window = max (Suc overlap) (min (length window) (brk window))"

text \<open>
  Modelled from the spec: the spans of the chunks in the text, from position \<open>s\<close> on. What
  is left from \<open>s\<close> is the last chunk when it fits in \<open>chunkSize\<close>; otherwise a slice is
  cut from the window and the next chunk starts \<open>overlap\<close> characters before its end.
\<close>

function chunk_spans ::
  "(jsstring \<Rightarrow> nat) \<Rightarrow> nat \<Rightarrow> nat \<Rightarrow> jsstring \<Rightarrow> nat \<Rightarrow> (nat \<times> nat) list" where
  "chunk_spans brk chunkSize overlap text s =
     (if length text \<le> s then []
      else if length text \<le> s + chunkSize then [(s, length text)]
      else (s, s + cut_length brk overlap (take chunkSize (drop s text)))
             # chunk_spans brk chunkSize overlap text
                 (s + cut_length brk overlap (take chunkSize (drop s text)) - overlap))"
  by pat_completeness auto
termination
  by (relation "measure (\<lambda>(brk, chunkSize, overlap, text, s). length text - s)")
     (auto simp: cut_length_def)

declare chunk_spans.simps [simp del]

text \<open>Modelled from the spec: the content of a chunk, the substring at its span.\<close>

definition slice :: "jsstring \<Rightarrow> nat \<times> nat \<Rightarrow> jsstring" where
  "slice text span = take (snd span - fst span) (drop (fst span) text)"

text \<open>
  Modelled from the spec: \<^verbatim>\<open>split(text, chunkSize, overlap)\<close> of section 4.2, the chunks being
  the slices of the trimmed text at the spans above.
\<close>

definition split_chunks :: "(jsstring \<Rightarrow> nat) \<Rightarrow> nat \<Rightarrow> nat \<Rightarrow> jsstring \<Rightarrow> jsstring list" where
  "split_chunks brk chunkSize overlap text =
     map (slice (trim text)) (chunk_spans brk chunkSize overlap (trim text) 0)"

text \<open>The number of characters of the text that two spans have in common.\<close>

definition shared :: "nat \<times> nat \<Rightarrow> nat \<times> nat \<Rightarrow> nat" where
  "shared a b = min (snd a) (snd b) - max (fst a) (fst b)"

section \<open>The documents route\<close>

text \<open>
  The filter \<^verbatim>\<open>.eq('metadata->>document_id', id)\<close> keeps the rows whose metadata carries the
  identifier.
\<close>

definition eq_document_id :: "jsstring \<Rightarrow> row \<Rightarrow> bool" where
  "eq_document_id did r = (document_id (metadata r) = Some did)"

text \<open>
  \<^verbatim>\<open>.order('metadata->>chunk_index', { ascending: true })\<close>: the operator \<^verbatim>\<open>->>\<close> extracts the
  value of the key as text, so the rows are ordered by the decimal text of their index,
  compared as text (code unit by code unit, a proper prefix first), rows without the key
  last. The sort is an insertion sort, which keeps rows with equal keys in table order.
\<close>

fun text_le :: "jsstring \<Rightarrow> jsstring \<Rightarrow> bool" where
  "text_le [] ys = True"
| "text_le (x # xs) [] = False"
| "text_le (x # xs) (y # ys) = (x < y \<or> (x = y \<and> text_le xs ys))"

definition chunk_index_text :: "row \<Rightarrow> jsstring option" where
  "chunk_index_text r = map_option decimal (chunk_index (metadata r))"

definition order_le :: "row \<Rightarrow> row \<Rightarrow> bool" where
  "order_le a b =
     (case chunk_index_text b of
        None \<Rightarrow> True
      | Some y \<Rightarrow> (case chunk_index_text a of None \<Rightarrow> False | Some x \<Rightarrow> text_le x y))"

fun insert_row :: "row \<Rightarrow> row list \<Rightarrow> row list" where
  "insert_row r [] = [r]"
| "insert_row r (x # xs) = (if order_le r x then r # x # xs else x # insert_row r xs)"

definition order_by_chunk_index :: "row list \<Rightarrow> row list" where
  "order_by_chunk_index rs = foldr insert_row rs []"

text \<open>
  The two queries of the route on one document: the ordered selection of \<^verbatim>\<open>GET\<close> and the
  deletion of \<^verbatim>\<open>DELETE\<close>. They are what the spec calls \<^verbatim>\<open>getByDocumentId\<close> and
  \<^verbatim>\<open>deleteByDocumentId\<close>; the deletion is given with the number of rows it removes.
\<close>

definition getByDocumentId :: "jsstring \<Rightarrow> row list \<Rightarrow> row list" where
  "getByDocumentId did rows = order_by_chunk_index (filter (eq_document_id did) rows)"

definition deleteByDocumentId :: "jsstring \<Rightarrow> row list \<Rightarrow> nat \<times> row list" where
  "deleteByDocumentId did rows =
     (length (filter (eq_document_id did) rows), filter (\<lambda>r. \<not> eq_document_id did r) rows)"

subsection \<open>\<^verbatim>\<open>GET\<close> with an identifier and without the \<^verbatim>\<open>file\<close> flag\<close>

record document_json =
  doc_id :: jsstring
  doc_file_name :: jsstring
  doc_file_type :: jsstring
  doc_file_size :: nat
  doc_upload_date :: jsstring
  doc_total_chunks :: nat
  fullText :: jsstring
  doc_file_url :: "jsstring option"
  doc_file_path :: "jsstring option"

datatype get_response =
    Get_failed nat jsstring
  | Get_document document_json

definition GET_document :: "'v services \<Rightarrow> jsstring \<Rightarrow> world \<Rightarrow> get_response \<times> world" where
  "GET_document sv did w =
     (let w' = log [Db_select did] w
      in case db_select_error sv did of
           Some _ \<Rightarrow> (Get_failed 404 (js ''Document not found''), w')
         | None \<Rightarrow>
             (case getByDocumentId did (db_table w) of
                [] \<Rightarrow> (Get_failed 404 (js ''Document not found''), w')
              | c # cs \<Rightarrow>
                  (let m = metadata c
                   in (Get_document
                         \<lparr>doc_id = did,
                          doc_file_name = or_else (file_name m) (js ''Unknown''),
                          doc_file_type = or_else (file_type m) (js ''unknown''),
                          doc_file_size = (case file_size m of None \<Rightarrow> 0 | Some n \<Rightarrow> n),
                          doc_upload_date = or_else (upload_date m) (toISOString sv),
                          doc_total_chunks = length (c # cs),
                          fullText = join [10, 10] (map content (c # cs)),
                          doc_file_url = file_url m,
                          doc_file_path = file_path m\<rparr>, w'))))"

subsection \<open>\<^verbatim>\<open>DELETE\<close>\<close>

datatype delete_response =
    Delete_failed nat jsstring
  | Delete_ok (fileDeleted: bool)

text \<open>
  \<^verbatim>\<open>storage.remove([filePath])\<close>: the route does not look at what the storage answers.
\<close>

definition storage_remove :: "'v services \<Rightarrow> jsstring \<Rightarrow> world \<Rightarrow> world" where
  "storage_remove sv p w =
     (case storage_remove_error sv p of
        Some _ \<Rightarrow> log [Storage_remove p] w
      | None \<Rightarrow> log [Storage_remove p] (w\<lparr>bucket := filter (\<lambda>(k, b). k \<noteq> p) (bucket w)\<rparr>))"

text \<open>
  \<^verbatim>\<open>docs?.[0]?.metadata?.file_path\<close> after the selection with \<^verbatim>\<open>.limit(1)\<close>: the path of the
  first row found for the identifier, nothing when the selection failed or found no row.
\<close>

definition first_file_path :: "'v services \<Rightarrow> jsstring \<Rightarrow> row list \<Rightarrow> jsstring option" where
  "first_file_path sv did rows =
     (case db_select_error sv did of
        Some _ \<Rightarrow> None
      | None \<Rightarrow>
          (case take 1 (filter (eq_document_id did) rows) of
             [] \<Rightarrow> None
           | d # _ \<Rightarrow> file_path (metadata d)))"

definition DELETE :: "'v services \<Rightarrow> jsstring option \<Rightarrow> world \<Rightarrow> delete_response \<times> world" where
  "DELETE sv id_param w =
     (case id_param of
        None \<Rightarrow> (Delete_failed 400 (js ''Document ID required''), w)
      | Some did \<Rightarrow>
          if did = [] then (Delete_failed 400 (js ''Document ID required''), w)
          else
            (let filePath = first_file_path sv did (db_table w);
                 w1 = log [Db_select did] w;
                 w2 = (if truthy filePath then storage_remove sv (the filePath) w1 else w1);
                 w3 = log [Db_delete did] w2
             in case db_delete_error sv did of
                  Some msg \<Rightarrow> (Delete_failed 500 msg, w3)
                | None \<Rightarrow>
                    (Delete_ok (truthy filePath),
                     w3\<lparr>db_table := snd (deleteByDocumentId did (db_table w3))\<rparr>)))"

section \<open>The query route\<close>

definition MATCH_COUNT :: nat where
  "MATCH_COUNT = 5"

datatype query_response =
    Query_failed nat jsstring
  | Query_ok (answer: jsstring) (sources: "hit list option")

text \<open>
  The handler takes \<^verbatim>\<open>query\<close> out of the request body and passes it to the embedding model
  in its first statement.
\<close>

definition POST_query :: "'v services \<Rightarrow> jsstring \<Rightarrow> world \<Rightarrow> query_response \<times> world" where
  "POST_query sv query w =
     (let w1 = log [Embeddings_create query] w
      in case embeddings_create sv query of
           Inl e \<Rightarrow> (Query_failed 500 (message e), w1)
         | Inr emb \<Rightarrow>
             (let w2 = log [Rpc_match_documents] w1
              in case match_documents sv (JSON_stringify sv emb) MATCH_COUNT (db_table w) of
                   Inl msg \<Rightarrow> (Query_failed 500 msg, w2)
                 | Inr results \<Rightarrow>
                     (let context =
                            (case results of
                               None \<Rightarrow> []
                             | Some hits \<Rightarrow> join [10, 45, 45, 45, 10] (map hit_content hits));
                          prompt = js ''Context: '' @ context @ [10, 10] @ js ''Question: '' @ query;
                          w3 = log [Chat_completions_create prompt] w2
                      in case chat_completions_create sv prompt of
                           Inl e \<Rightarrow> (Query_failed 500 (message e), w3)
                         | Inr a \<Rightarrow> (Query_ok a results, w3))))"


section \<open>Vocabulary of the properties\<close>

text \<open>The declared formats the extraction knows, by the suffix of the lower-cased name.\<close>

definition supported_format :: "jsstring \<Rightarrow> bool" where
  "supported_format name =
     (endsWith (toLowerCase name) (js ''.pdf'') \<or> endsWith (toLowerCase name) (js ''.docx'')
      \<or> endsWith (toLowerCase name) (js ''.txt''))"

text \<open>The calls that follow a successful extraction: chunking, embedding, insertion.\<close>

fun downstream :: "event \<Rightarrow> bool" where
  "downstream (Splitter_splitText t) = True"
| "downstream (Embeddings_create t) = True"
| "downstream (Db_insert i) = True"
| "downstream e = False"

text \<open>
  For chunks paired with their indices: the rows the loop builds for them, the calls it
  makes for them, and whether the embedding and the insert of one of them succeed.
\<close>

definition rows_of :: "'v services \<Rightarrow> js_file \<Rightarrow> nat \<Rightarrow> (nat \<times> jsstring) list \<Rightarrow> row list" where
  "rows_of sv f n ics =
     concat (map (\<lambda>(j, c). case embeddings_create sv c of
                              Inl e \<Rightarrow> []
                            | Inr v \<Rightarrow> [chunk_row sv f n j c (JSON_stringify sv v)]) ics)"

definition calls_of :: "(nat \<times> jsstring) list \<Rightarrow> event list" where
  "calls_of ics = concat (map (\<lambda>(j, c). [Embeddings_create c, Db_insert j]) ics)"

definition insert_outcome ::
  "'v services \<Rightarrow> js_file \<Rightarrow> nat \<Rightarrow> nat \<times> jsstring \<Rightarrow> jsstring option option" where
  "insert_outcome sv f n ic =
     (case embeddings_create sv (snd ic) of
        Inl e \<Rightarrow> None
      | Inr v \<Rightarrow> Some (db_insert_error sv (chunk_row sv f n (fst ic) (snd ic) (JSON_stringify sv v))))"

text \<open>
  The user message of the completion request, for the results of the search and the
  query.
\<close>

definition query_prompt :: "hit list option \<Rightarrow> jsstring \<Rightarrow> jsstring" where
  "query_prompt results query =
     js ''Context: ''
       @ (case results of
            None \<Rightarrow> []
          | Some hits \<Rightarrow> join [10, 45, 45, 45, 10] (map hit_content hits))
       @ [10, 10] @ js ''Question: '' @ query"




section \<open>Services and inputs for the worked examples\<close>

text \<open>
  A policy for the examples, to stand for \<open>brk\<close>: it cuts a window after its last paragraph
  boundary if that leaves more than the overlap, else after its last sentence boundary,
  else after its last word boundary, else at the end of the window. Here a paragraph ends
  with two line feeds, a sentence with a full stop, exclamation mark or question mark
  followed by white space, and a word with white space. It is one policy among those the
  properties of the chunker are proved for, and nothing is claimed of it beyond the
  examples. \<open>last_boundary\<close> reads the window backwards and gives the length of its longest
  prefix that ends at a boundary, 0 when there is none.
\<close>

fun last_boundary :: "(jsstring \<Rightarrow> bool) \<Rightarrow> jsstring \<Rightarrow> nat" where
  "last_boundary ends [] = 0"
| "last_boundary ends (c # cs) =
     (if ends (c # cs) then length (c # cs) else last_boundary ends cs)"

definition paragraph_end :: "jsstring \<Rightarrow> bool" where
  "paragraph_end r = (case r of a # b # _ \<Rightarrow> a = 10 \<and> b = 10 | _ \<Rightarrow> False)"

definition sentence_end :: "jsstring \<Rightarrow> bool" where
  "sentence_end r =
     (case r of a # b # _ \<Rightarrow> js_whitespace a \<and> (b = 46 \<or> b = 33 \<or> b = 63) | _ \<Rightarrow> False)"

definition word_end :: "jsstring \<Rightarrow> bool" where
  "word_end r = (case r of a # _ \<Rightarrow> js_whitespace a | _ \<Rightarrow> False)"

definition natural_break :: "nat \<Rightarrow> jsstring \<Rightarrow> nat" where
  "natural_break overlap window =
     (if overlap < last_boundary paragraph_end (rev window)
        then last_boundary paragraph_end (rev window)
      else if overlap < last_boundary sentence_end (rev window)
        then last_boundary sentence_end (rev window)
      else if overlap < last_boundary word_end (rev window)
        then last_boundary word_end (rev window)
      else length window)"

text \<open>
  Stand-ins for the services: every request succeeds, a buffer of ASCII bytes decodes to
  the same numbers, the splitter is the chunker of section 4.2 with the policy above, an
  embedding is the one-element vector of the length of its input.
\<close>

definition test_services :: "nat list services" where
  "test_services =
     \<lparr>randomUUID = js ''doc-1'',
      toISOString = js ''2024-01-01T00:00:00.000Z'',
      pdf_parseBuffer = (\<lambda>b. Inr (PdfData (Some [Page (Some [Text (Some [Run (Some b)])])]))),
      mammoth_extractRawText = (\<lambda>b. Inr b),
      buffer_toString = (\<lambda>b. b),
      splitText = split_chunks (natural_break 100) 800 100,
      embeddings_create = (\<lambda>t. Inr [length t]),
      JSON_stringify = (\<lambda>v. concat (map decimal v)),
      chat_completions_create = (\<lambda>p. Inr (js ''I do not know.'')),
      match_documents =
        (\<lambda>q k rows. Inr (Some (take k (map (\<lambda>r. \<lparr>hit_content = content r,
                                                   hit_metadata = metadata r\<rparr>) rows)))),
      storage_upload_error = (\<lambda>p b. None),
      storage_getPublicUrl = (\<lambda>p. js ''https://storage/'' @ p),
      storage_remove_error = (\<lambda>p. None),
      db_insert_error = (\<lambda>r. None),
      db_select_error = (\<lambda>d. None),
      db_delete_error = (\<lambda>d. None)\<rparr>"

definition empty_world :: world where
  "empty_world = \<lparr>db_table = [], bucket = [], calls = []\<rparr>"

definition text_file :: "string \<Rightarrow> nat list \<Rightarrow> js_file" where
  "text_file name bytes =
     \<lparr>f_name = js name, f_type = js ''text/plain'', f_size = length bytes, f_bytes = bytes\<rparr>"


text \<open>
  The same services with a chunker of small sizes (chunks of 8 characters, overlap 2),
  and then with a database that refuses the insert of the chunk with index 1, and with an
  embedding model that rejects the empty input.
\<close>

definition small_services :: "nat list services" where
  "small_services = test_services\<lparr>splitText := split_chunks (natural_break 2) 8 2\<rparr>"

definition refusing_services :: "nat list services" where
  "refusing_services =
     small_services
       \<lparr>db_insert_error :=
          (\<lambda>r. if chunk_index (metadata r) = Some 1 then Some (js ''insert failed'')
                else None)\<rparr>"

definition strict_services :: "nat list services" where
  "strict_services =
     test_services
       \<lparr>embeddings_create :=
          (\<lambda>t. if t = [] then Inl (Error (js ''input is empty'')) else Inr [length t])\<rparr>"

text \<open>A table with the chunks of two documents, and their files in the bucket.\<close>

definition sample_row :: "string \<Rightarrow> nat \<Rightarrow> nat \<Rightarrow> string \<Rightarrow> row" where
  "sample_row d i n c =
     \<lparr>content = js c,
      metadata =
        \<lparr>source = Some (js ''notes.txt''),
         document_id = Some (js d),
         file_name = Some (js ''notes.txt''),
         file_type = Some (js ''text/plain''),
         file_size = Some 11,
         upload_date = Some (js ''2024-01-01T00:00:00.000Z''),
         chunk_index = Some i,
         total_chunks = Some n,
         file_path = Some (js d @ js ''.txt''),
         file_url = Some (js ''https://storage/'' @ js d @ js ''.txt'')\<rparr>,
      embedding = js ''[1]''\<rparr>"

definition sample_world :: world where
  "sample_world =
     \<lparr>db_table = [sample_row ''doc-1'' 0 2 ''first'', sample_row ''doc-2'' 0 1 ''other'',
                  sample_row ''doc-1'' 1 2 ''second''],
      bucket = [(js ''doc-1.txt'', [1, 2]), (js ''doc-2.txt'', [3])],
      calls = []\<rparr>"

definition long_text :: jsstring where
  "long_text = js ''aa bb cc dd ee ff gg hh ii jj kk ll mm nn oo pp qq rr ss tt uu vv ww''"

text \<open>Two texts of 1500 characters: letters only, and spaces only.\<close>

definition text_a :: jsstring where
  "text_a = replicate 1500 97"


section \<open>The percent-decoder of the PDF text runs\<close>

lemma decode_percent_escape:
  "decodeURIComponent (37 # 50 # 53 # s) =
     (case decodeURIComponent s of Inl e \<Rightarrow> Inl e | Inr r \<Rightarrow> Inr (37 # r))"
  by (simp add: ParseHexOctet_def hex_digit_def leading_ones_def)

lemma decode_plain:
  "c \<noteq> 37 \<Longrightarrow>
     decodeURIComponent (c # s) =
       (case decodeURIComponent s of Inl e \<Rightarrow> Inl e | Inr r \<Rightarrow> Inr (c # r))"
  by simp

lemma replace_percent_simps:
  "replace_percent [] = []"
  "replace_percent (37 # s) = 37 # 50 # 53 # replace_percent s"
  "c \<noteq> 37 \<Longrightarrow> replace_percent (c # s) = c # replace_percent s"
  by (simp_all add: replace_percent_def)

text \<open>
  Once every \<^verbatim>\<open>%\<close> has become \<^verbatim>\<open>%25\<close>, the built-in decodes the string back to what it was:
  with the real \<^verbatim>\<open>decodeURIComponent\<close> the second attempt cannot throw.
\<close>

lemma decode_replace_percent: "decodeURIComponent (replace_percent s) = Inr s"
proof (induction s)
  case Nil
  show ?case by (simp add: replace_percent_simps)
next
  case (Cons c s)
  show ?case
  proof (cases "c = 37")
    case True
    then show ?thesis
      using Cons.IH
      by (simp add: replace_percent_simps decode_percent_escape del: decodeURIComponent.simps)
  next
    case False
    then show ?thesis
      using Cons.IH
      by (simp add: replace_percent_simps decode_plain del: decodeURIComponent.simps)
  qed
qed

text \<open>
  Claim C8. For every input string, and whatever the built-in decoder does, the decoder of
  the text runs returns a string and lets no exception out: the decoded string when the
  first attempt succeeds, otherwise the decoding of the string with every \<^verbatim>\<open>%\<close> replaced by
  \<^verbatim>\<open>%25\<close> when that succeeds, otherwise the string itself.
\<close>

theorem safeDecodeURIComponent_three_tiers:
  "\<exists>r. safeDecodeURIComponent dec s = Inr r \<and>
        r = (case dec s of
               Inr d \<Rightarrow> d
             | Inl e \<Rightarrow> (case dec (replace_percent s) of Inr d \<Rightarrow> d | Inl e' \<Rightarrow> s))"
  by (simp add: safeDecodeURIComponent_def split: sum.splits)

text \<open>
  The three tiers at work: a well-formed escape, a stray \<^verbatim>\<open>%\<close> that the second attempt
  recovers, and a decoder that always throws.
\<close>

theorem safeDecodeURIComponent_three_tiers_witness:
  "safeDecodeURIComponent decodeURIComponent (js ''caf%C3%A9'') = Inr (js ''caf'' @ [233])
   \<and> safeDecodeURIComponent decodeURIComponent (js ''100%'') = Inr (js ''100%'')
   \<and> safeDecodeURIComponent (\<lambda>s. Inl URIError) (js ''%'') = Inr (js ''%'')"
proof -
  have a: "decodeURIComponent (js ''caf%C3%A9'') = Inr (js ''caf'' @ [233])"
    by (simp add: js_def ParseHexOctet_def hex_digit_def leading_ones_def
          utf8_code_point_def UTF16EncodeCodePoint_def)
  have b: "decodeURIComponent (js ''100%'') = Inl URIError"
    by (simp add: js_def)
  have c: "decodeURIComponent (replace_percent (js ''100%'')) = Inr (js ''100%'')"
    by (rule decode_replace_percent)
  show ?thesis
    using safeDecodeURIComponent_three_tiers [of decodeURIComponent "js ''caf%C3%A9''"]
          safeDecodeURIComponent_three_tiers [of decodeURIComponent "js ''100%''"]
          safeDecodeURIComponent_three_tiers [of "\<lambda>s. Inl URIError" "js ''%''"]
    by (simp add: a b c)
qed


section \<open>Extraction\<close>

lemma trim_blank: "(\<forall>c \<in> set s. js_whitespace c) \<Longrightarrow> trim s = []"
  by (auto simp: trim_def dest: set_dropWhileD)

lemma extract_calls_not_downstream:
  "filter downstream (fst (extractTextFromFile sv f)) = []"
  by (simp add: extractTextFromFile_def Let_def)

text \<open>
  Claim C3, as the code has it. For every file whose lower-cased name ends in none of
  \<^verbatim>\<open>.pdf\<close>, \<^verbatim>\<open>.docx\<close> and \<^verbatim>\<open>.txt\<close>, the extraction fails with the unsupported-format error
  after having read the bytes of the file into a buffer, and without handing the buffer
  to a parser or a decoder: the read is its only call.
\<close>

theorem unsupported_format_fails_after_reading:
  "\<not> supported_format (f_name f) \<Longrightarrow>
     extractTextFromFile sv f = ([File_arrayBuffer], Inl UnsupportedFormat)"
  by (simp add: extractTextFromFile_def supported_format_def Let_def)

theorem unsupported_format_fails_after_reading_witness:
  "\<not> supported_format (f_name (text_file ''notes.bin'' [1, 2, 3]))
   \<and> extractTextFromFile test_services (text_file ''notes.bin'' [1, 2, 3])
       = ([File_arrayBuffer], Inl UnsupportedFormat)"
  using unsupported_format_fails_after_reading
          [of "text_file ''notes.bin'' [1, 2, 3]" test_services]
  by (simp add: text_file_def supported_format_def endsWith_def toLowerCase_def js_def)

text \<open>
  The claim as the spec words it, that the failure comes before any byte of the buffer is
  touched, does not hold: for \<^verbatim>\<open>notes.bin\<close> the extraction has read the file when it
  fails, and the handler has by then read it once more and stored its bytes in the
  bucket.
\<close>

theorem unsupported_format_buffer_read_counterexample:
  "\<not> supported_format (f_name (text_file ''notes.bin'' [1, 2, 3]))
   \<and> snd (extractTextFromFile test_services (text_file ''notes.bin'' [1, 2, 3]))
       = Inl UnsupportedFormat
   \<and> File_arrayBuffer
       \<in> set (fst (extractTextFromFile test_services (text_file ''notes.bin'' [1, 2, 3])))
   \<and> calls (snd (POST_upload test_services (Some (text_file ''notes.bin'' [1, 2, 3]))
                   empty_world))
       = [File_arrayBuffer, Storage_upload (js ''doc-1.bin''),
          Storage_getPublicUrl (js ''doc-1.bin''), File_arrayBuffer]
   \<and> bucket (snd (POST_upload test_services (Some (text_file ''notes.bin'' [1, 2, 3]))
                    empty_world))
       = [(js ''doc-1.bin'', [1, 2, 3])]"
  by (simp add: text_file_def supported_format_def endsWith_def toLowerCase_def js_def
        extractTextFromFile_def POST_upload_def upload_path_def test_services_def
        empty_world_def log_def split_dot_pop_def Let_def)

section \<open>Ingestion\<close>

text \<open>
  Claim C7. When the upload to the bucket has succeeded and the extraction returns a text
  (so the format is one of the three supported ones) that is empty or consists of white
  space only, the handler answers with the empty-content failure, status 400; it calls
  neither the splitter nor the embedding model nor the insert, and the table is as it was.
\<close>

theorem blank_text_is_EmptyContent:
  assumes "storage_upload_error sv (upload_path sv f) (f_bytes f) = None"
      and "snd (extractTextFromFile sv f) = Inr extracted"
      and "\<forall>c \<in> set extracted. js_whitespace c"
  shows "fst (POST_upload sv (Some f) w) = EmptyContent
         \<and> filter downstream (calls (snd (POST_upload sv (Some f) w)))
             = filter downstream (calls w)
         \<and> db_table (snd (POST_upload sv (Some f) w)) = db_table w"
  using assms trim_blank [of extracted]
  by (simp add: POST_upload_def Let_def log_def extract_calls_not_downstream)

theorem blank_text_is_EmptyContent_witness:
  "storage_upload_error test_services
       (upload_path test_services (text_file ''blank.txt'' [32, 10, 9]))
       (f_bytes (text_file ''blank.txt'' [32, 10, 9])) = None
   \<and> snd (extractTextFromFile test_services (text_file ''blank.txt'' [32, 10, 9]))
       = Inr [32, 10, 9]
   \<and> list_all js_whitespace [32, 10, 9]
   \<and> fst (POST_upload test_services (Some (text_file ''blank.txt'' [32, 10, 9])) empty_world)
       = EmptyContent
   \<and> filter downstream
       (calls (snd (POST_upload test_services (Some (text_file ''blank.txt'' [32, 10, 9]))
                      empty_world))) = []
   \<and> db_table (snd (POST_upload test_services (Some (text_file ''blank.txt'' [32, 10, 9]))
                      empty_world)) = []"
proof -
  have a: "storage_upload_error test_services
             (upload_path test_services (text_file ''blank.txt'' [32, 10, 9]))
             (f_bytes (text_file ''blank.txt'' [32, 10, 9])) = None"
    by (simp add: test_services_def)
  have b: "snd (extractTextFromFile test_services (text_file ''blank.txt'' [32, 10, 9]))
             = Inr [32, 10, 9]"
    by (simp add: extractTextFromFile_def text_file_def test_services_def endsWith_def
          toLowerCase_def js_def Let_def)
  have c: "\<forall>c \<in> set [32, 10, 9]. js_whitespace c"
    by (simp add: js_whitespace_def)
  show ?thesis
    using blank_text_is_EmptyContent [OF a b c, of empty_world] a b
    by (simp add: empty_world_def js_whitespace_def)
qed



subsection \<open>The loop over the chunks\<close>

lemma calls_of_downstream: "filter downstream (calls_of ics) = calls_of ics"
  by (induction ics) (auto simp: calls_of_def)

lemma rows_of_Cons:
  "rows_of sv f n ((j, c) # ics) =
     (case embeddings_create sv c of
        Inl e \<Rightarrow> []
      | Inr v \<Rightarrow> [chunk_row sv f n j c (JSON_stringify sv v)]) @ rows_of sv f n ics"
  by (simp add: rows_of_def)

lemma calls_of_Cons:
  "calls_of ((j, c) # ics) = Embeddings_create c # Db_insert j # calls_of ics"
  by (simp add: calls_of_def)

lemma rows_of_Nil: "rows_of sv f n [] = []" by (simp add: rows_of_def)
lemma calls_of_Nil: "calls_of [] = []" by (simp add: calls_of_def)

lemma insert_outcome_ok:
  "insert_outcome sv f n (j, c) = Some r \<longleftrightarrow>
     (\<exists>v. embeddings_create sv c = Inr v
          \<and> db_insert_error sv (chunk_row sv f n j c (JSON_stringify sv v)) = r)"
  by (auto simp: insert_outcome_def split: sum.splits)

lemma embed_and_insert_fails:
  assumes "i < length cs"
      and "\<forall>ic \<in> set (take i (enumerate k cs)). insert_outcome sv f n ic = Some None"
      and "insert_outcome sv f n (enumerate k cs ! i) = Some (Some msg)"
  shows "embed_and_insert sv f n k cs w =
           (Inr (Some (Upload_failed 500 msg)),
            w\<lparr>db_table := db_table w @ rows_of sv f n (take i (enumerate k cs)),
              calls := calls w @ calls_of (take (Suc i) (enumerate k cs))\<rparr>)"
  using assms
proof (induction cs arbitrary: i k w)
  case Nil
  then show ?case by simp
next
  case (Cons c cs)
  show ?case
  proof (cases i)
    case 0
    with Cons.prems(3) obtain v where
      "embeddings_create sv c = Inr v"
      "db_insert_error sv (chunk_row sv f n k c (JSON_stringify sv v)) = Some msg"
      by (auto simp: insert_outcome_ok)
    with 0 show ?thesis
      by (simp add: log_def rows_of_Nil calls_of_Cons calls_of_Nil)
  next
    case (Suc i')
    from Cons.prems(2) Suc obtain v where v:
      "embeddings_create sv c = Inr v"
      "db_insert_error sv (chunk_row sv f n k c (JSON_stringify sv v)) = None"
      by (auto simp: insert_outcome_ok)
    have a: "i' < length cs" using Cons.prems(1) Suc by simp
    have b: "\<forall>ic \<in> set (take i' (enumerate (Suc k) cs)). insert_outcome sv f n ic = Some None"
      using Cons.prems(2) Suc by simp
    have c: "insert_outcome sv f n (enumerate (Suc k) cs ! i') = Some (Some msg)"
      using Cons.prems(3) Suc by simp
    show ?thesis
      using Cons.IH [OF a b c] v Suc
      by (simp add: log_def rows_of_Cons calls_of_Cons Let_def)
  qed
qed

lemma embed_and_insert_succeeds:
  assumes "\<forall>ic \<in> set (enumerate k cs). insert_outcome sv f n ic = Some None"
  shows "embed_and_insert sv f n k cs w =
           (Inr None,
            w\<lparr>db_table := db_table w @ rows_of sv f n (enumerate k cs),
              calls := calls w @ calls_of (enumerate k cs)\<rparr>)"
  using assms
proof (induction cs arbitrary: k w)
  case Nil
  then show ?case by (simp add: rows_of_Nil calls_of_Nil)
next
  case (Cons c cs)
  from Cons.prems obtain v where v:
    "embeddings_create sv c = Inr v"
    "db_insert_error sv (chunk_row sv f n k c (JSON_stringify sv v)) = None"
    by (auto simp: insert_outcome_ok)
  have b: "\<forall>ic \<in> set (enumerate (Suc k) cs). insert_outcome sv f n ic = Some None"
    using Cons.prems by simp
  show ?case
    using Cons.IH [OF b] v
    by (simp add: log_def rows_of_Cons calls_of_Cons Let_def)
qed

lemma rows_of_stored:
  "\<forall>ic \<in> set ics. insert_outcome sv f n ic = Some None \<Longrightarrow>
     map (\<lambda>r. (chunk_index (metadata r), total_chunks (metadata r), content r)) (rows_of sv f n ics)
       = map (\<lambda>(j, c). (Some j, Some n, c)) ics"
  by (induction ics) (auto simp: rows_of_Nil rows_of_Cons insert_outcome_ok chunk_row_def)


text \<open>
  Claim C5. The chunks are embedded and inserted one after the other in index order. When
  the upload and the extraction have succeeded, the chunks before index \<open>i\<close> were embedded
  and inserted without failure, and the insert of chunk \<open>i\<close> fails, the handler answers
  with status 500 and the message of that failure at once: the rows of the chunks
  \<open>0..i-1\<close>, with their indices and contents, have been added to the table and stay there,
  and the calls made after the upload are the split followed by one embedding and one
  insert for each of the chunks \<open>0..i\<close>, nothing for a later chunk.
\<close>

theorem insert_failure_keeps_prefix:
  assumes up: "storage_upload_error sv (upload_path sv f) (f_bytes f) = None"
      and ex: "snd (extractTextFromFile sv f) = Inr extracted"
      and nb: "trim extracted \<noteq> []"
      and i: "i < length (splitText sv extracted)"
      and ok: "\<forall>ic \<in> set (take i (enumerate 0 (splitText sv extracted))).
                 insert_outcome sv f (length (splitText sv extracted)) ic = Some None"
      and fail: "insert_outcome sv f (length (splitText sv extracted))
                   (enumerate 0 (splitText sv extracted) ! i) = Some (Some msg)"
  shows "fst (POST_upload sv (Some f) w) = Upload_failed 500 msg
         \<and> db_table (snd (POST_upload sv (Some f) w))
             = db_table w
               @ rows_of sv f (length (splitText sv extracted))
                   (take i (enumerate 0 (splitText sv extracted)))
         \<and> map (\<lambda>r. (chunk_index (metadata r), total_chunks (metadata r), content r))
               (rows_of sv f (length (splitText sv extracted))
                  (take i (enumerate 0 (splitText sv extracted))))
             = map (\<lambda>(j, c). (Some j, Some (length (splitText sv extracted)), c))
                 (take i (enumerate 0 (splitText sv extracted)))
         \<and> filter downstream (calls (snd (POST_upload sv (Some f) w)))
             = filter downstream (calls w) @ Splitter_splitText extracted
                 # calls_of (take (Suc i) (enumerate 0 (splitText sv extracted)))"
proof -
  have ne: "extracted \<noteq> []" using nb by (auto simp: trim_def)
  show ?thesis
    using up ex nb ne rows_of_stored [OF ok]
    by (simp add: POST_upload_def Let_def log_def embed_and_insert_fails [OF i ok fail]
          extract_calls_not_downstream calls_of_downstream)
qed

lemma small_split:
  "split_chunks (natural_break 2) 8 2 (js ''aaaa bbbb cccc dddd'')
     = [js ''aaaa '', js ''a bbbb '', js ''b cccc '', js ''c dddd'']"
  by (simp add: split_chunks_def chunk_spans.simps natural_break_def cut_length_def slice_def
        trim_def js_def js_whitespace_def paragraph_end_def sentence_end_def word_end_def)

theorem insert_failure_keeps_prefix_witness:
  "fst (POST_upload refusing_services (Some (text_file ''a.txt'' (js ''aaaa bbbb cccc dddd'')))
          empty_world) = Upload_failed 500 (js ''insert failed'')
   \<and> map (\<lambda>r. (chunk_index (metadata r), total_chunks (metadata r), content r))
        (db_table (snd (POST_upload refusing_services
                          (Some (text_file ''a.txt'' (js ''aaaa bbbb cccc dddd''))) empty_world)))
       = [(Some 0, Some 4, js ''aaaa '')]
   \<and> filter downstream
        (calls (snd (POST_upload refusing_services
                       (Some (text_file ''a.txt'' (js ''aaaa bbbb cccc dddd''))) empty_world)))
       = [Splitter_splitText (js ''aaaa bbbb cccc dddd''),
          Embeddings_create (js ''aaaa ''), Db_insert 0,
          Embeddings_create (js ''a bbbb ''), Db_insert 1]"
proof -
  let ?t = "js ''aaaa bbbb cccc dddd''"
  let ?f = "text_file ''a.txt'' ?t"
  have sp: "splitText refusing_services ?t
              = [js ''aaaa '', js ''a bbbb '', js ''b cccc '', js ''c dddd'']"
    using small_split by (simp add: refusing_services_def small_services_def test_services_def)
  have up: "storage_upload_error refusing_services (upload_path refusing_services ?f) (f_bytes ?f) = None"
    by (simp add: refusing_services_def small_services_def test_services_def)
  have ex: "snd (extractTextFromFile refusing_services ?f) = Inr ?t"
    by (simp add: extractTextFromFile_def text_file_def refusing_services_def small_services_def test_services_def
          endsWith_def toLowerCase_def js_def Let_def)
  have nb: "trim ?t \<noteq> []"
    by (simp add: trim_def js_def js_whitespace_def)
  have i: "1 < length (splitText refusing_services ?t)"
    by (simp add: sp)
  have ok: "\<forall>ic \<in> set (take 1 (enumerate 0 (splitText refusing_services ?t))).
              insert_outcome refusing_services ?f (length (splitText refusing_services ?t)) ic = Some None"
    unfolding sp
    by (simp add: insert_outcome_def refusing_services_def small_services_def test_services_def chunk_row_def)
  have fail: "insert_outcome refusing_services ?f (length (splitText refusing_services ?t))
                (enumerate 0 (splitText refusing_services ?t) ! 1) = Some (Some (js ''insert failed''))"
    unfolding sp
    by (simp add: insert_outcome_def refusing_services_def small_services_def test_services_def chunk_row_def)
  show ?thesis
    using insert_failure_keeps_prefix [OF up ex nb i ok fail, of empty_world]
    by (simp add: sp empty_world_def calls_of_def)
qed



section \<open>Retrieval\<close>

text \<open>
  Claim C2, as the code has it. The handler does not look at the query before it uses it:
  for every query string, the empty and the white-space-only ones included, its first
  call is the embedding model on the query as given. What it answers is decided by the
  services alone. It answers with status 500 and the message of the failed call when the
  embedding call throws, when the search answers with an error, or when the completion
  call throws, having called nothing after the call that failed; when the three calls
  succeed it answers with the generated text and the results of the search. No other
  answer exists, so no query is rejected as invalid.
\<close>

theorem query_is_embedded_unvalidated:
  "(\<exists>rest. calls (snd (POST_query sv query w)) = calls w @ Embeddings_create query # rest)
   \<and> (\<forall>e. embeddings_create sv query = Inl e \<longrightarrow>
          POST_query sv query w
            = (Query_failed 500 (message e), log [Embeddings_create query] w))
   \<and> (\<forall>emb msg.
          embeddings_create sv query = Inr emb
          \<and> match_documents sv (JSON_stringify sv emb) MATCH_COUNT (db_table w) = Inl msg \<longrightarrow>
          POST_query sv query w
            = (Query_failed 500 msg, log [Embeddings_create query, Rpc_match_documents] w))
   \<and> (\<forall>emb results e.
          embeddings_create sv query = Inr emb
          \<and> match_documents sv (JSON_stringify sv emb) MATCH_COUNT (db_table w) = Inr results
          \<and> chat_completions_create sv (query_prompt results query) = Inl e \<longrightarrow>
          POST_query sv query w
            = (Query_failed 500 (message e),
               log [Embeddings_create query, Rpc_match_documents,
                    Chat_completions_create (query_prompt results query)] w))
   \<and> (\<forall>emb results a.
          embeddings_create sv query = Inr emb
          \<and> match_documents sv (JSON_stringify sv emb) MATCH_COUNT (db_table w) = Inr results
          \<and> chat_completions_create sv (query_prompt results query) = Inr a \<longrightarrow>
          POST_query sv query w
            = (Query_ok a results,
               log [Embeddings_create query, Rpc_match_documents,
                    Chat_completions_create (query_prompt results query)] w))"
  by (auto simp: POST_query_def query_prompt_def log_def Let_def split: sum.splits)

theorem query_is_embedded_unvalidated_witness:
  "POST_query strict_services [] empty_world
     = (Query_failed 500 (js ''input is empty''), log [Embeddings_create []] empty_world)
   \<and> POST_query test_services (js ''   '') empty_world
       = (Query_ok (js ''I do not know.'') (Some []),
          log [Embeddings_create (js ''   ''), Rpc_match_documents,
               Chat_completions_create (query_prompt (Some []) (js ''   ''))] empty_world)"
proof -
  have a: "embeddings_create strict_services [] = Inl (Error (js ''input is empty''))"
    by (simp add: strict_services_def)
  have b: "embeddings_create test_services (js ''   '') = Inr [3]"
    by (simp add: test_services_def js_def)
  have c: "match_documents test_services (JSON_stringify test_services [3]) MATCH_COUNT
             (db_table empty_world) = Inr (Some [])"
    by (simp add: test_services_def empty_world_def)
  have d: "chat_completions_create test_services (query_prompt (Some []) (js ''   ''))
             = Inr (js ''I do not know.'')"
    by (simp add: test_services_def)
  note t1 = query_is_embedded_unvalidated [of strict_services "[]" empty_world,
              THEN conjunct2, THEN conjunct1]
  note t2 = query_is_embedded_unvalidated [of test_services "js ''   ''" empty_world,
              THEN conjunct2, THEN conjunct2, THEN conjunct2, THEN conjunct2]
  have "POST_query strict_services [] empty_world
          = (Query_failed 500 (message (Error (js ''input is empty''))),
             log [Embeddings_create []] empty_world)"
    using t1 a by blast
  moreover have "POST_query test_services (js ''   '') empty_world
       = (Query_ok (js ''I do not know.'') (Some []),
          log [Embeddings_create (js ''   ''), Rpc_match_documents,
               Chat_completions_create (query_prompt (Some []) (js ''   ''))] empty_world)"
    using t2 b c d by blast
  ultimately show ?thesis by simp
qed

text \<open>
  The claim as the spec words it, that a query of white space only is rejected before any
  service is called, does not hold: with services that answer, the query of three spaces
  is embedded, searched for and answered.
\<close>

theorem query_not_validated_counterexample:
  "trim (js ''   '') = []
   \<and> POST_query test_services (js ''   '') empty_world
       = (Query_ok (js ''I do not know.'') (Some []),
          \<lparr>db_table = [], bucket = [],
           calls = [Embeddings_create (js ''   ''), Rpc_match_documents,
                    Chat_completions_create
                      (js ''Context: '' @ [10, 10] @ js ''Question: '' @ js ''   '')]\<rparr>)"
  by (simp add: trim_def js_def js_whitespace_def POST_query_def test_services_def
        empty_world_def log_def MATCH_COUNT_def Let_def)

section \<open>Deletion\<close>

lemma filter_neg_empty: "filter P (filter (\<lambda>x. \<not> P x) xs) = []"
  by (induction xs) auto

lemma filter_none_keeps: "filter P xs = [] \<Longrightarrow> filter (\<lambda>x. \<not> P x) xs = xs"
  by (induction xs) (auto split: if_splits)

lemma DELETE_ok_iff:
  "fst (DELETE sv (Some did) w) = Delete_ok b \<longleftrightarrow>
     did \<noteq> [] \<and> db_delete_error sv did = None
     \<and> b = truthy (first_file_path sv did (db_table w))"
  by (auto simp: DELETE_def Let_def split: option.splits)

lemma DELETE_table:
  "fst (DELETE sv (Some did) w) = Delete_ok b \<Longrightarrow>
     db_table (snd (DELETE sv (Some did) w)) = filter (\<lambda>r. \<not> eq_document_id did r) (db_table w)"
  by (auto simp: DELETE_def Let_def log_def storage_remove_def deleteByDocumentId_def
      split: option.splits if_splits)

text \<open>
  Claim C9. Once \<^verbatim>\<open>DELETE\<close> has answered with success for an identifier, the selection by
  that identifier is empty (and \<^verbatim>\<open>GET\<close> answers 404); a second \<^verbatim>\<open>DELETE\<close> whose
  deletion request the database accepts answers with success again, removes no row
  and leaves the table as it is. The table \<open>w\<close> is arbitrary, so this covers identifiers
  that were never ingested.
\<close>

theorem delete_is_idempotent:
  assumes "fst (DELETE sv (Some did) w) = Delete_ok b"
      and "db_delete_error svd did = None"
  shows "getByDocumentId did (db_table (snd (DELETE sv (Some did) w))) = []
         \<and> fst (GET_document svg did (snd (DELETE sv (Some did) w)))
             = Get_failed 404 (js ''Document not found'')
         \<and> fst (deleteByDocumentId did (db_table (snd (DELETE sv (Some did) w)))) = 0
         \<and> fst (DELETE svd (Some did) (snd (DELETE sv (Some did) w))) = Delete_ok False
         \<and> db_table (snd (DELETE svd (Some did) (snd (DELETE sv (Some did) w))))
             = db_table (snd (DELETE sv (Some did) w))"
proof -
  let ?w1 = "snd (DELETE sv (Some did) w)"
  have t: "db_table ?w1 = filter (\<lambda>r. \<not> eq_document_id did r) (db_table w)"
    using assms(1) by (rule DELETE_table)
  have none: "filter (eq_document_id did) (db_table ?w1) = []"
    by (simp add: t filter_neg_empty)
  have ne: "did \<noteq> []" using assms(1) by (simp add: DELETE_ok_iff)
  have g: "getByDocumentId did (db_table ?w1) = []"
    by (simp add: getByDocumentId_def none order_by_chunk_index_def)
  have p: "first_file_path svd did (db_table ?w1) = None"
    by (simp add: first_file_path_def none split: option.splits)
  have ok2: "fst (DELETE svd (Some did) ?w1) = Delete_ok False"
    using ne assms(2) p by (simp add: DELETE_ok_iff truthy_def)
  have t2: "db_table (snd (DELETE svd (Some did) ?w1)) = db_table ?w1"
    using DELETE_table [OF ok2] none by (simp add: filter_none_keeps)
  show ?thesis
    using g ok2 t2 none
    by (simp add: GET_document_def Let_def deleteByDocumentId_def split: option.splits)
qed

theorem delete_is_idempotent_witness:
  "fst (DELETE test_services (Some (js ''doc-1'')) sample_world) = Delete_ok True
   \<and> db_delete_error test_services (js ''doc-1'') = None
   \<and> length (getByDocumentId (js ''doc-1'') (db_table sample_world)) = 2
   \<and> getByDocumentId (js ''doc-1'')
        (db_table (snd (DELETE test_services (Some (js ''doc-1'')) sample_world))) = []
   \<and> fst (GET_document test_services (js ''doc-1'')
             (snd (DELETE test_services (Some (js ''doc-1'')) sample_world)))
       = Get_failed 404 (js ''Document not found'')
   \<and> fst (DELETE test_services (Some (js ''doc-1''))
             (snd (DELETE test_services (Some (js ''doc-1'')) sample_world))) = Delete_ok False"
proof -
  have a: "fst (DELETE test_services (Some (js ''doc-1'')) sample_world) = Delete_ok True"
    by (simp add: DELETE_def sample_world_def sample_row_def test_services_def
          first_file_path_def eq_document_id_def truthy_def js_def Let_def)
  have b: "db_delete_error test_services (js ''doc-1'') = None"
    by (simp add: test_services_def)
  have c: "length (getByDocumentId (js ''doc-1'') (db_table sample_world)) = 2"
    by (simp add: getByDocumentId_def sample_world_def sample_row_def eq_document_id_def
          order_by_chunk_index_def js_def)
  show ?thesis
    using delete_is_idempotent [OF a b, where svg = test_services] a b c
    by simp
qed



text \<open>
  Claim C10. \<^verbatim>\<open>DELETE\<close> asks the storage to remove a file exactly when the first row found
  for the identifier carries a non-empty \<^verbatim>\<open>file_path\<close>, and then it is that path. For an
  identifier without rows, when the database accepts the deletion, it answers with
  success and \<^verbatim>\<open>fileDeleted = false\<close>, makes no call to the storage and changes neither
  the bucket nor the table.
\<close>

theorem delete_removes_file_only_with_path:
  assumes "did \<noteq> []"
  shows "calls (snd (DELETE sv (Some did) w))
           = calls w @ [Db_select did]
               @ (if truthy (first_file_path sv did (db_table w))
                  then [Storage_remove (the (first_file_path sv did (db_table w)))] else [])
               @ [Db_delete did]
         \<and> (db_select_error sv did = None \<longrightarrow>
              first_file_path sv did (db_table w)
                = (case filter (eq_document_id did) (db_table w) of
                     [] \<Rightarrow> None | d # ds \<Rightarrow> file_path (metadata d)))
         \<and> (filter (eq_document_id did) (db_table w) = [] \<and> db_delete_error sv did = None \<longrightarrow>
              DELETE sv (Some did) w
                = (Delete_ok False, w\<lparr>calls := calls w @ [Db_select did, Db_delete did]\<rparr>))"
proof -
  have a: "calls (snd (DELETE sv (Some did) w))
           = calls w @ [Db_select did]
               @ (if truthy (first_file_path sv did (db_table w))
                  then [Storage_remove (the (first_file_path sv did (db_table w)))] else [])
               @ [Db_delete did]"
    using assms
    by (simp add: DELETE_def Let_def log_def storage_remove_def split: option.splits)
  have b: "db_select_error sv did = None \<longrightarrow>
              first_file_path sv did (db_table w)
                = (case filter (eq_document_id did) (db_table w) of
                     [] \<Rightarrow> None | d # ds \<Rightarrow> file_path (metadata d))"
    by (simp add: first_file_path_def split: list.splits)
  have c: "filter (eq_document_id did) (db_table w) = [] \<and> db_delete_error sv did = None \<longrightarrow>
              DELETE sv (Some did) w
                = (Delete_ok False, w\<lparr>calls := calls w @ [Db_select did, Db_delete did]\<rparr>)"
    using assms
    by (auto simp: DELETE_def Let_def log_def first_file_path_def truthy_def
          deleteByDocumentId_def filter_none_keeps split: option.splits)
  show ?thesis using a b c by blast
qed


theorem delete_removes_file_only_with_path_witness:
  "js ''doc-1'' \<noteq> [] \<and> js ''doc-9'' \<noteq> []
   \<and> calls (snd (DELETE test_services (Some (js ''doc-1'')) sample_world))
       = [Db_select (js ''doc-1''), Storage_remove (js ''doc-1.txt''), Db_delete (js ''doc-1'')]
   \<and> bucket (snd (DELETE test_services (Some (js ''doc-1'')) sample_world))
       = [(js ''doc-2.txt'', [3])]
   \<and> filter (eq_document_id (js ''doc-9'')) (db_table sample_world) = []
   \<and> DELETE test_services (Some (js ''doc-9'')) sample_world
       = (Delete_ok False,
          sample_world\<lparr>calls := [Db_select (js ''doc-9''), Db_delete (js ''doc-9'')]\<rparr>)"
proof -
  have n1: "js ''doc-1'' \<noteq> []" and n9: "js ''doc-9'' \<noteq> []"
    by (simp_all add: js_def)
  have p: "first_file_path test_services (js ''doc-1'') (db_table sample_world)
             = Some (js ''doc-1.txt'')"
    by (simp add: first_file_path_def sample_world_def sample_row_def test_services_def
          eq_document_id_def js_def)
  have bk: "bucket (snd (DELETE test_services (Some (js ''doc-1'')) sample_world))
              = [(js ''doc-2.txt'', [3])]"
    by (simp add: DELETE_def Let_def log_def storage_remove_def truthy_def first_file_path_def
          sample_world_def sample_row_def test_services_def eq_document_id_def js_def
          deleteByDocumentId_def)
  have e: "filter (eq_document_id (js ''doc-9'')) (db_table sample_world) = []"
    by (simp add: sample_world_def sample_row_def eq_document_id_def js_def)
  have d: "db_delete_error test_services (js ''doc-9'') = None"
    by (simp add: test_services_def)
  have s: "calls sample_world = []"
    by (simp add: sample_world_def)
  have t: "truthy (Some (js ''doc-1.txt''))"
    by (simp add: truthy_def js_def)
  show ?thesis
    using delete_removes_file_only_with_path [OF n1, of test_services sample_world]
          delete_removes_file_only_with_path [OF n9, of test_services sample_world]
          n1 n9 p bk e d s t
    by simp
qed



section \<open>Successful ingestion\<close>

lemma POST_upload_succeeds:
  assumes up: "storage_upload_error sv (upload_path sv f) (f_bytes f) = None"
      and ex: "snd (extractTextFromFile sv f) = Inr extracted"
      and nb: "trim extracted \<noteq> []"
      and ok: "\<forall>ic \<in> set (enumerate 0 (splitText sv extracted)).
                 insert_outcome sv f (length (splitText sv extracted)) ic = Some None"
  shows "fst (POST_upload sv (Some f) w)
           = Upload_ok (randomUUID sv) (f_name f) (length (splitText sv extracted))
               (length extracted) (storage_getPublicUrl sv (upload_path sv f))"
    and "db_table (snd (POST_upload sv (Some f) w))
           = db_table w
             @ rows_of sv f (length (splitText sv extracted))
                 (enumerate 0 (splitText sv extracted))"
proof -
  have ne: "extracted \<noteq> []" using nb by (auto simp: trim_def)
  show "fst (POST_upload sv (Some f) w)
           = Upload_ok (randomUUID sv) (f_name f) (length (splitText sv extracted))
               (length extracted) (storage_getPublicUrl sv (upload_path sv f))"
    using up ex nb ne
    by (simp add: POST_upload_def Let_def log_def embed_and_insert_succeeds [OF ok])
  show "db_table (snd (POST_upload sv (Some f) w))
           = db_table w
             @ rows_of sv f (length (splitText sv extracted))
                 (enumerate 0 (splitText sv extracted))"
    using up ex nb ne
    by (simp add: POST_upload_def Let_def log_def embed_and_insert_succeeds [OF ok])
qed


section \<open>Reading a document back\<close>

lemma long_split:
  "splitText small_services long_text
     = [js ''aa bb '', js ''b cc dd '', js ''d ee ff '', js ''f gg hh '', js ''h ii jj '',
        js ''j kk ll '', js ''l mm nn '', js ''n oo pp '', js ''p qq rr '', js ''r ss tt '',
        js ''t uu vv '', js ''v ww'']"
  by (simp add: small_services_def test_services_def long_text_def split_chunks_def
        chunk_spans.simps natural_break_def cut_length_def slice_def
        trim_def js_def js_whitespace_def paragraph_end_def sentence_end_def word_end_def)

lemma small_services_ok: "insert_outcome small_services f n ic = Some None"
  by (simp add: insert_outcome_def small_services_def test_services_def)

lemma long_table:
  "db_table (snd (POST_upload small_services (Some (text_file ''long.txt'' long_text)) empty_world))
     = rows_of small_services (text_file ''long.txt'' long_text) 12
         (enumerate 0 (splitText small_services long_text))"
proof -
  let ?f = "text_file ''long.txt'' long_text"
  have up: "storage_upload_error small_services (upload_path small_services ?f) (f_bytes ?f) = None"
    by (simp add: small_services_def test_services_def)
  have ex: "snd (extractTextFromFile small_services ?f) = Inr long_text"
    by (simp add: extractTextFromFile_def text_file_def small_services_def test_services_def
          endsWith_def toLowerCase_def js_def Let_def)
  have nb: "trim long_text \<noteq> []"
    by (simp add: long_text_def trim_def js_def js_whitespace_def)
  have ok: "\<forall>ic \<in> set (enumerate 0 (splitText small_services long_text)).
              insert_outcome small_services ?f (length (splitText small_services long_text)) ic = Some None"
    by (simp add: small_services_ok)
  have n: "length (splitText small_services long_text) = 12"
    by (simp add: long_split)
  show ?thesis
    using POST_upload_succeeds(2) [OF up ex nb ok, of empty_world]
    by (simp add: n empty_world_def)
qed

lemma GET_document_fullText:
  assumes "db_select_error sv did = None" and "getByDocumentId did (db_table w) \<noteq> []"
  shows "\<exists>d. fst (GET_document sv did w) = Get_document d
             \<and> fullText d = join [10, 10] (map content (getByDocumentId did (db_table w)))
             \<and> doc_total_chunks d = length (getByDocumentId did (db_table w))"
  using assms by (cases "getByDocumentId did (db_table w)") (simp_all add: GET_document_def Let_def)

text \<open>
  Claim C1 does not hold of the code. The selection orders the rows by the text of their
  index, so from the eleventh chunk on the order is not the numeric one: after the
  ingestion of a text that the splitter cuts into twelve chunks, the chunks come back in
  the order 0, 1, 10, 11, 2, ..., 9, and the full text that \<^verbatim>\<open>GET\<close> returns is their
  contents joined in that order.
\<close>

theorem getByDocumentId_orders_index_as_text:
  "map (\<lambda>r. (chunk_index (metadata r), content r))
     (getByDocumentId (js ''doc-1'')
        (db_table (snd (POST_upload small_services (Some (text_file ''long.txt'' long_text))
                          empty_world))))
   = [(Some 0, js ''aa bb ''), (Some 1, js ''b cc dd ''), (Some 10, js ''t uu vv ''),
      (Some 11, js ''v ww''), (Some 2, js ''d ee ff ''), (Some 3, js ''f gg hh ''),
      (Some 4, js ''h ii jj ''), (Some 5, js ''j kk ll ''), (Some 6, js ''l mm nn ''),
      (Some 7, js ''n oo pp ''), (Some 8, js ''p qq rr ''), (Some 9, js ''r ss tt '')]
   \<and> (\<exists>d. fst (GET_document test_services (js ''doc-1'')
                  (snd (POST_upload small_services (Some (text_file ''long.txt'' long_text))
                          empty_world))) = Get_document d
           \<and> fullText d
               = join [10, 10]
                   [js ''aa bb '', js ''b cc dd '', js ''t uu vv '', js ''v ww'',
                    js ''d ee ff '', js ''f gg hh '', js ''h ii jj '', js ''j kk ll '',
                    js ''l mm nn '', js ''n oo pp '', js ''p qq rr '', js ''r ss tt ''])"
proof -
  let ?w = "snd (POST_upload small_services (Some (text_file ''long.txt'' long_text))
                  empty_world)"
  have a: "map (\<lambda>r. (chunk_index (metadata r), content r))
             (getByDocumentId (js ''doc-1'') (db_table ?w))
           = [(Some 0, js ''aa bb ''), (Some 1, js ''b cc dd ''), (Some 10, js ''t uu vv ''),
              (Some 11, js ''v ww''), (Some 2, js ''d ee ff ''), (Some 3, js ''f gg hh ''),
              (Some 4, js ''h ii jj ''), (Some 5, js ''j kk ll ''), (Some 6, js ''l mm nn ''),
              (Some 7, js ''n oo pp ''), (Some 8, js ''p qq rr ''), (Some 9, js ''r ss tt '')]"
    unfolding long_table long_split
    by (simp add: rows_of_def getByDocumentId_def eq_document_id_def order_by_chunk_index_def
          order_le_def chunk_index_text_def decimal.simps chunk_row_def small_services_def
          test_services_def)
  have "map snd (map (\<lambda>r. (chunk_index (metadata r), content r))
                   (getByDocumentId (js ''doc-1'') (db_table ?w)))
        = [js ''aa bb '', js ''b cc dd '', js ''t uu vv '', js ''v ww'',
           js ''d ee ff '', js ''f gg hh '', js ''h ii jj '', js ''j kk ll '',
           js ''l mm nn '', js ''n oo pp '', js ''p qq rr '', js ''r ss tt '']"
    unfolding a by simp
  then have c: "map content (getByDocumentId (js ''doc-1'') (db_table ?w))
        = [js ''aa bb '', js ''b cc dd '', js ''t uu vv '', js ''v ww'',
           js ''d ee ff '', js ''f gg hh '', js ''h ii jj '', js ''j kk ll '',
           js ''l mm nn '', js ''n oo pp '', js ''p qq rr '', js ''r ss tt '']"
    by (simp add: o_def)
  then have ne: "getByDocumentId (js ''doc-1'') (db_table ?w) \<noteq> []"
    by auto
  have sel: "db_select_error test_services (js ''doc-1'') = None"
    by (simp add: test_services_def)
  from GET_document_fullText [OF sel ne]
  have "\<exists>d. fst (GET_document test_services (js ''doc-1'') ?w) = Get_document d
           \<and> fullText d
               = join [10, 10]
                   [js ''aa bb '', js ''b cc dd '', js ''t uu vv '', js ''v ww'',
                    js ''d ee ff '', js ''f gg hh '', js ''h ii jj '', js ''j kk ll '',
                    js ''l mm nn '', js ''n oo pp '', js ''p qq rr '', js ''r ss tt '']"
    unfolding c by blast
  with a show ?thesis by (rule conjI)
qed

section \<open>The chunker of the spec\<close>

lemma chunk_spans_last:
  "s < length t \<Longrightarrow> length t \<le> s + chunkSize \<Longrightarrow>
     chunk_spans brk chunkSize overlap t s = [(s, length t)]"
  by (simp add: chunk_spans.simps)

lemma chunk_spans_step:
  "s + chunkSize < length t \<Longrightarrow>
     chunk_spans brk chunkSize overlap t s
       = (s, s + cut_length brk overlap (take chunkSize (drop s t)))
           # chunk_spans brk chunkSize overlap t
               (s + cut_length brk overlap (take chunkSize (drop s t)) - overlap)"
  by (subst chunk_spans.simps) simp

lemma chunk_spans_end: "length t \<le> s \<Longrightarrow> chunk_spans brk chunkSize overlap t s = []"
  by (simp add: chunk_spans.simps)

lemma cut_length_bounds:
  "overlap < chunkSize \<Longrightarrow> length w = chunkSize \<Longrightarrow>
     overlap < cut_length brk overlap w \<and> cut_length brk overlap w \<le> chunkSize"
  by (auto simp: cut_length_def)

lemma chunk_spans_first:
  assumes "s < length t" and "overlap < chunkSize"
  shows "\<exists>e rest. chunk_spans brk chunkSize overlap t s = (s, e) # rest
           \<and> e \<le> length t \<and> min (length t) (Suc (s + overlap)) \<le> e"
proof (cases "length t \<le> s + chunkSize")
  case True
  then show ?thesis using assms by (simp add: chunk_spans_last)
next
  case False
  then have lt: "s + chunkSize < length t" by simp
  then have "length (take chunkSize (drop s t)) = chunkSize" by simp
  from cut_length_bounds [OF assms(2) this, of brk] lt
  show ?thesis by (simp add: chunk_spans_step [OF lt])
qed

lemma chunk_spans_adjacent:
  assumes "overlap < chunkSize"
      and "Suc k < length (chunk_spans brk chunkSize overlap t s)"
  shows "fst (chunk_spans brk chunkSize overlap t s ! Suc k)
           = snd (chunk_spans brk chunkSize overlap t s ! k) - overlap
         \<and> fst (chunk_spans brk chunkSize overlap t s ! k)
             < fst (chunk_spans brk chunkSize overlap t s ! Suc k)
         \<and> overlap \<le> snd (chunk_spans brk chunkSize overlap t s ! k)
         \<and> snd (chunk_spans brk chunkSize overlap t s ! k)
             \<le> snd (chunk_spans brk chunkSize overlap t s ! Suc k)
         \<and> snd (chunk_spans brk chunkSize overlap t s ! Suc k) \<le> length t"
  using assms
proof (induction brk chunkSize overlap t s arbitrary: k rule: chunk_spans.induct)
  case (1 brk chunkSize overlap t s)
  let ?c = "cut_length brk overlap (take chunkSize (drop s t))"
  have lt: "s + chunkSize < length t"
  proof (rule ccontr)
    assume "\<not> s + chunkSize < length t"
    then have "length (chunk_spans brk chunkSize overlap t s) \<le> 1"
      by (cases "length t \<le> s") (simp_all add: chunk_spans_end chunk_spans_last)
    with "1.prems"(2) show False by simp
  qed
  have w: "length (take chunkSize (drop s t)) = chunkSize" using lt by simp
  have cb: "overlap < ?c" "?c \<le> chunkSize"
    using cut_length_bounds [OF "1.prems"(1) w, of brk] by simp_all
  have unfold: "chunk_spans brk chunkSize overlap t s
                  = (s, s + ?c) # chunk_spans brk chunkSize overlap t (s + ?c - overlap)"
    by (rule chunk_spans_step [OF lt])
  have next_lt: "s + ?c - overlap < length t" using lt cb by simp
  from chunk_spans_first [OF next_lt "1.prems"(1), of brk]
  obtain e rest where nx:
    "chunk_spans brk chunkSize overlap t (s + ?c - overlap) = (s + ?c - overlap, e) # rest"
    "e \<le> length t" "min (length t) (Suc (s + ?c - overlap + overlap)) \<le> e"
    by blast
  show ?case
  proof (cases k)
    case 0
    then show ?thesis using unfold nx cb lt by (auto simp: min_def split: if_splits)
  next
    case (Suc k')
    have "Suc k' < length (chunk_spans brk chunkSize overlap t (s + ?c - overlap))"
      using "1.prems"(2) Suc unfold by simp
    from "1.IH" [OF _ _ "1.prems"(1) this] lt
    show ?thesis using Suc unfold by simp
  qed
qed

text \<open>
  Claim C4, for the chunker as the spec describes it, with chunks of 800 characters and an
  overlap of 100, and whatever the policy for natural boundaries: two chunks adjacent in
  index order are slices of the trimmed text whose spans have exactly 100 characters in
  common, and the last 100 characters of the first chunk are the first 100 of the second.
  No pair is an exception, the last one included.
\<close>

theorem adjacent_chunks_share_overlap:
  assumes "Suc k < length (split_chunks brk 800 100 text)"
  shows "shared (chunk_spans brk 800 100 (trim text) 0 ! k)
                (chunk_spans brk 800 100 (trim text) 0 ! Suc k) = 100
         \<and> split_chunks brk 800 100 text ! k
             = slice (trim text) (chunk_spans brk 800 100 (trim text) 0 ! k)
         \<and> split_chunks brk 800 100 text ! Suc k
             = slice (trim text) (chunk_spans brk 800 100 (trim text) 0 ! Suc k)
         \<and> drop (length (split_chunks brk 800 100 text ! k) - 100)
                 (split_chunks brk 800 100 text ! k)
             = take 100 (split_chunks brk 800 100 text ! Suc k)"
proof -
  let ?t = "trim text"
  let ?xs = "chunk_spans brk 800 100 ?t 0"
  have n: "Suc k < length ?xs" using assms by (simp add: split_chunks_def)
  have o: "(100::nat) < 800" by simp
  from chunk_spans_adjacent [OF o n]
  have a: "fst (?xs ! Suc k) = snd (?xs ! k) - 100"
    and b: "fst (?xs ! k) < fst (?xs ! Suc k)"
    and c: "100 \<le> snd (?xs ! k)"
    and d: "snd (?xs ! k) \<le> snd (?xs ! Suc k)"
    and e: "snd (?xs ! Suc k) \<le> length ?t"
    by simp_all
  have s: "shared (?xs ! k) (?xs ! Suc k) = 100"
    using a b c d by (simp add: shared_def min_def max_def)
  have ck: "split_chunks brk 800 100 text ! k = slice ?t (?xs ! k)"
    and ck1: "split_chunks brk 800 100 text ! Suc k = slice ?t (?xs ! Suc k)"
    using n by (simp_all add: split_chunks_def)
  obtain s1 e1 where p1: "?xs ! k = (s1, e1)" by (cases "?xs ! k")
  obtain s2 e2 where p2: "?xs ! Suc k = (s2, e2)" by (cases "?xs ! Suc k")
  have ar: "s2 = e1 - 100" "s1 < s2" "100 \<le> e1" "e1 \<le> e2" "e2 \<le> length ?t"
    using a b c d e by (simp_all add: p1 p2)
  have l1: "length (slice ?t (s1, e1)) = e1 - s1"
    using ar by (simp add: slice_def)
  have "drop (e1 - s1 - 100) (slice ?t (s1, e1)) = take 100 (drop (e1 - 100) ?t)"
    using ar by (simp add: slice_def drop_take)
  moreover have "100 \<le> e2 - s2"
    using ar by arith
  then have "take 100 (slice ?t (s2, e2)) = take 100 (drop (e1 - 100) ?t)"
    using ar(1) by (simp add: slice_def min_absorb1)
  ultimately have ov: "drop (length (slice ?t (s1, e1)) - 100) (slice ?t (s1, e1))
                         = take 100 (slice ?t (s2, e2))"
    by (simp add: l1)
  show ?thesis
    using s ck ck1 ov by (simp add: p1 p2)
qed

lemma last_boundary_paragraph_none:
  "\<forall>c \<in> set xs. \<not> js_whitespace c \<Longrightarrow> last_boundary paragraph_end xs = 0"
  by (induction xs) (auto simp: paragraph_end_def js_whitespace_def split: list.splits)

lemma last_boundary_sentence_none:
  "\<forall>c \<in> set xs. \<not> js_whitespace c \<Longrightarrow> last_boundary sentence_end xs = 0"
  by (induction xs) (auto simp: sentence_end_def split: list.splits)

lemma last_boundary_word_none:
  "\<forall>c \<in> set xs. \<not> js_whitespace c \<Longrightarrow> last_boundary word_end xs = 0"
  by (induction xs) (auto simp: word_end_def)

lemma natural_break_hard_cut:
  "\<forall>c \<in> set w. \<not> js_whitespace c \<Longrightarrow> natural_break overlap w = length w"
  by (simp add: natural_break_def last_boundary_paragraph_none last_boundary_sentence_none
        last_boundary_word_none)

lemma trim_id:
  "s \<noteq> [] \<Longrightarrow> \<not> js_whitespace (hd s) \<Longrightarrow> \<not> js_whitespace (last s) \<Longrightarrow> trim s = s"
proof -
  assume a: "s \<noteq> []" "\<not> js_whitespace (hd s)" "\<not> js_whitespace (last s)"
  then have "dropWhile js_whitespace s = s" by (cases s) simp_all
  moreover have "dropWhile js_whitespace (rev s) = rev s"
    using a by (cases "rev s") (simp_all add: last_rev [symmetric] hd_rev)
  ultimately show ?thesis by (simp add: trim_def)
qed

lemma spans_1500:
  assumes "length t = 1500" and "800 \<le> brk (take 800 t)"
  shows "chunk_spans brk 800 100 t 0 = [(0, 800), (700, 1500)]"
proof -
  have c: "cut_length brk 100 (take 800 (drop 0 t)) = 800"
    using assms by (simp add: cut_length_def)
  have "chunk_spans brk 800 100 t 0 = (0, 800) # chunk_spans brk 800 100 t 700"
    using chunk_spans_step [of 0 800 t brk 100] assms(1) c by simp
  moreover have "chunk_spans brk 800 100 t 700 = [(700, 1500)]"
    using chunk_spans_last [of 700 t 800 brk 100] assms(1) by simp
  ultimately show ?thesis by simp
qed

lemma split_1500:
  assumes "length t = 1500" and "trim t = t" and "800 \<le> brk (take 800 t)"
  shows "split_chunks brk 800 100 t = [take 800 t, drop 700 t]"
  using assms by (simp add: split_chunks_def spans_1500 slice_def)




lemma text_a_facts:
  "length text_a = 1500" "trim text_a = text_a"
  "natural_break 100 (take 800 text_a) = 800"
proof -
  show "length text_a = 1500" by (simp add: text_a_def)
  show "trim text_a = text_a"
    by (rule trim_id) (simp_all add: text_a_def js_whitespace_def)
  have "\<forall>c \<in> set (take 800 text_a). \<not> js_whitespace c"
    by (simp add: text_a_def js_whitespace_def)
  from natural_break_hard_cut [OF this, of 100]
  show "natural_break 100 (take 800 text_a) = 800" by (simp add: text_a_def)
qed

theorem adjacent_chunks_share_overlap_witness:
  "Suc 0 < length (split_chunks (natural_break 100) 800 100 text_a)
   \<and> chunk_spans (natural_break 100) 800 100 (trim text_a) 0 = [(0, 800), (700, 1500)]
   \<and> shared (0, 800) (700, 1500) = 100
   \<and> drop (length (split_chunks (natural_break 100) 800 100 text_a ! 0) - 100)
           (split_chunks (natural_break 100) 800 100 text_a ! 0)
       = take 100 (split_chunks (natural_break 100) 800 100 text_a ! Suc 0)"
proof -
  have sp: "chunk_spans (natural_break 100) 800 100 (trim text_a) 0 = [(0, 800), (700, 1500)]"
    using spans_1500 [of text_a "natural_break 100"] text_a_facts by simp
  have n: "Suc 0 < length (split_chunks (natural_break 100) 800 100 text_a)"
    by (simp add: split_chunks_def sp)
  note t = adjacent_chunks_share_overlap [OF n]
  from t [THEN conjunct1] t [THEN conjunct2, THEN conjunct2, THEN conjunct2] n sp
  show ?thesis by simp
qed

section \<open>The scenario of 1500 characters\<close>



















end
